theory Spec2Isabelle
  imports Main
begin

section \<open>Shared Python notions\<close>

text \<open>
  Python \<open>str\<close> values are modelled as \<open>string\<close>; the non-ASCII literals of
  the sources are written as their UTF-8 bytes. Exceptions that the sources can raise
  are values of \<open>py_error\<close>.
\<close>

datatype py_error =
    KeyError string
  | IntegrityError string
  | OverflowError string
  | ValueError string

section \<open>Scenario selector (core/scenario\_selector.py)\<close>

datatype ScenarioType =
    PROMPT_ENHANCEMENT
  | SKILL_REUSE
  | PLAN_REVIEW
  | LEAD_MEMBER
  | COMPOSITE

record ScenarioInfo =
  scenario_type :: ScenarioType
  name :: string
  description :: string
  complexity_range :: "int \<times> int"
  requires_confirmation :: bool
  max_agents :: int
  estimated_steps :: int
  best_practices :: "string list"

text \<open>The class attribute \<open>SCENARIOS\<close>: a dict with one entry per scenario type.
  \<open>best_practices\<close> is never given, so it takes its default, the empty list.\<close>

definition info_prompt_enhancement :: ScenarioInfo where
  "info_prompt_enhancement = \<lparr>
     scenario_type = PROMPT_ENHANCEMENT,
     name = [CHR 0xE6, CHR 0x8F, CHR 0x90, CHR 0xE7, CHR 0xA4, CHR 0xBA, CHR 0xE5, CHR 0xA2,
             CHR 0x9E, CHR 0xE5, CHR 0xBC, CHR 0xBA],
     description = [CHR 0xE4, CHR 0xBB, CHR 0xBB, CHR 0xE5, CHR 0x8A, CHR 0xA1, CHR 0xE7,
             CHR 0xAE, CHR 0x80, CHR 0xE5, CHR 0x8D, CHR 0x95, CHR 0xEF, CHR 0xBC, CHR 0x8C,
             CHR 0xE5, CHR 0xA2, CHR 0x9E, CHR 0xE5, CHR 0xBC, CHR 0xBA, CHR 0xE6, CHR 0x8F,
             CHR 0x90, CHR 0xE7, CHR 0xA4, CHR 0xBA, CHR 0xE5, CHR 0x90, CHR 0x8E, CHR 0xE7,
             CHR 0x9B, CHR 0xB4, CHR 0xE6, CHR 0x8E, CHR 0xA5, CHR 0xE6, CHR 0x89, CHR 0xA7,
             CHR 0xE8, CHR 0xA1, CHR 0x8C],
     complexity_range = (1, 2),
     requires_confirmation = False,
     max_agents = 1,
     estimated_steps = 1,
     best_practices = [] \<rparr>"

definition info_skill_reuse :: ScenarioInfo where
  "info_skill_reuse = \<lparr>
     scenario_type = SKILL_REUSE,
     name = ''Skill'' @ [CHR 0xE5, CHR 0xA4, CHR 0x8D, CHR 0xE7, CHR 0x94, CHR 0xA8],
     description = [CHR 0xE6, CHR 0x9C, CHR 0x89, CHR 0xE7, CHR 0x8E, CHR 0xB0, CHR 0xE6,
             CHR 0x88, CHR 0x90] @ ''Skill'' @ [CHR 0xE5, CHR 0x8F, CHR 0xAF, CHR 0xE7,
             CHR 0x94, CHR 0xA8, CHR 0xEF, CHR 0xBC, CHR 0x8C, CHR 0xE7, CHR 0x9B, CHR 0xB4,
             CHR 0xE6, CHR 0x8E, CHR 0xA5, CHR 0xE8, CHR 0xB0, CHR 0x83, CHR 0xE7, CHR 0x94,
             CHR 0xA8, CHR 0xE6, CHR 0x89, CHR 0xA7, CHR 0xE8, CHR 0xA1, CHR 0x8C],
     complexity_range = (3, 5),
     requires_confirmation = False,
     max_agents = 1,
     estimated_steps = 2,
     best_practices = [] \<rparr>"

definition info_plan_review :: ScenarioInfo where
  "info_plan_review = \<lparr>
     scenario_type = PLAN_REVIEW,
     name = [CHR 0xE8, CHR 0xAE, CHR 0xA1, CHR 0xE5, CHR 0x88, CHR 0x92] @ ''+'' @
            [CHR 0xE8, CHR 0xAF, CHR 0x84, CHR 0xE5, CHR 0xAE, CHR 0xA1],
     description = [CHR 0xE5, CHR 0x87, CHR 0xBA, CHR 0xE8, CHR 0xAE, CHR 0xA1, CHR 0xE5,
             CHR 0x88, CHR 0x92, CHR 0xE2, CHR 0x86, CHR 0x92, CHR 0xE7, CHR 0xA1, CHR 0xAE,
             CHR 0xE8, CHR 0xAE, CHR 0xA4, CHR 0xE2, CHR 0x86, CHR 0x92, CHR 0xE6, CHR 0x89,
             CHR 0xA7, CHR 0xE8, CHR 0xA1, CHR 0x8C, CHR 0xE2, CHR 0x86, CHR 0x92] @ ''Review'',
     complexity_range = (3, 5),
     requires_confirmation = False,
     max_agents = 3,
     estimated_steps = 4,
     best_practices = [] \<rparr>"

definition info_lead_member :: ScenarioInfo where
  "info_lead_member = \<lparr>
     scenario_type = LEAD_MEMBER,
     name = ''Lead-Member'',
     description = ''Leader'' @ [CHR 0xE5, CHR 0x8D, CHR 0x8F, CHR 0xE8, CHR 0xB0, CHR 0x83,
             CHR 0xEF, CHR 0xBC, CHR 0x8C] @ ''Member'' @ [CHR 0xE5, CHR 0xB9, CHR 0xB6,
             CHR 0xE8, CHR 0xA1, CHR 0x8C, CHR 0xE6, CHR 0x89, CHR 0xA7, CHR 0xE8, CHR 0xA1,
             CHR 0x8C],
     complexity_range = (6, 10),
     requires_confirmation = True,
     max_agents = 5,
     estimated_steps = 5,
     best_practices = [] \<rparr>"

definition info_composite :: ScenarioInfo where
  "info_composite = \<lparr>
     scenario_type = COMPOSITE,
     name = [CHR 0xE5, CHR 0xA4, CHR 0x8D, CHR 0xE5, CHR 0x90, CHR 0x88, CHR 0xE7, CHR 0xBC,
             CHR 0x96, CHR 0xE6, CHR 0x8E, CHR 0x92],
     description = [CHR 0xE5, CHR 0x8A, CHR 0xA8, CHR 0xE6, CHR 0x80, CHR 0x81, CHR 0xE7,
             CHR 0xBB, CHR 0x84, CHR 0xE5, CHR 0x90, CHR 0x88, CHR 0xE5, CHR 0xA4, CHR 0x9A,
             CHR 0xE7, CHR 0xA7, CHR 0x8D, CHR 0xE5, CHR 0x9C, CHR 0xBA, CHR 0xE6, CHR 0x99,
             CHR 0xAF],
     complexity_range = (6, 10),
     requires_confirmation = True,
     max_agents = 10,
     estimated_steps = 7,
     best_practices = [] \<rparr>"

fun SCENARIOS :: "ScenarioType \<Rightarrow> ScenarioInfo option" where
  "SCENARIOS PROMPT_ENHANCEMENT = Some info_prompt_enhancement"
| "SCENARIOS SKILL_REUSE = Some info_skill_reuse"
| "SCENARIOS PLAN_REVIEW = Some info_plan_review"
| "SCENARIOS LEAD_MEMBER = Some info_lead_member"
| "SCENARIOS COMPOSITE = Some info_composite"

text \<open>\<open>self.SCENARIOS[k]\<close>: a subscript raises \<open>KeyError\<close> on a missing key.\<close>

definition scenarios_subscript :: "ScenarioType \<Rightarrow> py_error + ScenarioInfo" where
  "scenarios_subscript k =
     (case SCENARIOS k of None \<Rightarrow> Inl (KeyError ''ScenarioType'') | Some i \<Rightarrow> Inr i)"

text \<open>\<open>has_matching_skill\<close> defaults to \<open>None\<close> and is tested for truthiness.\<close>

fun truthy :: "bool option \<Rightarrow> bool" where
  "truthy None = False"
| "truthy (Some b) = b"

definition select :: "int \<Rightarrow> string \<Rightarrow> bool option \<Rightarrow> py_error + ScenarioInfo" where
  "select complexity task_description has_matching_skill =
     (if complexity \<le> 2 then scenarios_subscript PROMPT_ENHANCEMENT
      else if complexity \<le> 5 then
        (if truthy has_matching_skill then scenarios_subscript SKILL_REUSE
         else scenarios_subscript PLAN_REVIEW)
      else scenarios_subscript LEAD_MEMBER)"

text \<open>\<open>self.SCENARIOS.get(scenario_type)\<close>: \<open>None\<close> on a missing key.\<close>

definition get_scenario_by_type :: "ScenarioType \<Rightarrow> ScenarioInfo option" where
  "get_scenario_by_type ty = SCENARIOS ty"

section \<open>Swarm queue (core/swarm.py)\<close>

text \<open>
  JSON data (payload fields, results, step parameters). \<open>json.loads (json.dumps v)\<close>
  is \<open>v\<close> on these values, so a serialised column is modelled by the value it holds.
\<close>

datatype jval =
    JNull
  | JBool bool
  | JInt int
  | JStr string
  | JList "jval list"
  | JDict "(string \<times> jval) list"

datatype TaskStatus = PENDING | RUNNING | COMPLETED | FAILED

fun TaskStatus_value :: "TaskStatus \<Rightarrow> string" where
  "TaskStatus_value PENDING = ''pending''"
| "TaskStatus_value RUNNING = ''running''"
| "TaskStatus_value COMPLETED = ''completed''"
| "TaskStatus_value FAILED = ''failed''"

text \<open>
  A subtask is a dict; these are the keys the code reads. \<open>'type'\<close> is the worker's
  string tag and \<open>'priority'\<close> an integer, as the columns they are bound to say;
  \<open>'goal'\<close> and \<open>'context'\<close> are any JSON. A key may be missing.
\<close>

record subtask =
  st_type :: "string option"
  st_priority :: "int option"
  st_goal :: "jval option"
  st_context :: "jval option"

text \<open>The two tables of \<open>_init_db\<close>, each a list of rows in insertion order.\<close>

record task_row =
  task_id :: string
  parent_id :: "string option"
  t_status :: string
  priority :: int
  worker_type :: string
  payload :: subtask
  result :: "jval option"
  t_created_at :: string
  completed_at :: "string option"

record session_row =
  session_id :: string
  main_task :: string
  subtask_count :: int
  completed_count :: int
  s_status :: string
  s_created_at :: string

record store =
  tasks :: "task_row list"
  swarm_sessions :: "session_row list"

text \<open>The database after \<open>_init_db\<close> on a new file.\<close>

definition empty_store :: store where
  "empty_store = \<lparr> tasks = [], swarm_sessions = [] \<rparr>"

text \<open>
  \<open>INSERT INTO swarm_sessions (session_id, main_task, subtask_count, created_at)\<close>:
  \<open>completed_count\<close> and \<open>status\<close> take the column defaults 0 and \<open>'running'\<close>;
  a second row with the same primary key is refused.
\<close>

definition insert_session ::
  "session_row list \<Rightarrow> string \<Rightarrow> string \<Rightarrow> int \<Rightarrow> string \<Rightarrow> py_error + session_row list" where
  "insert_session rows sid mt n now =
     (if sid \<in> set (map session_id rows) then Inl (IntegrityError ''swarm_sessions.session_id'')
      else Inr (rows @ [\<lparr> session_id = sid, main_task = mt, subtask_count = n,
                          completed_count = 0, s_status = ''running'', s_created_at = now \<rparr>]))"

text \<open>An integer bound to a statement must fit SQLite's 64-bit INTEGER.\<close>

definition sqlite_int :: "int \<Rightarrow> bool" where
  "sqlite_int i = (- (2 ^ 63) \<le> i \<and> i < 2 ^ 63)"

text \<open>
  The loop over \<open>subtasks\<close>. Each subtask comes with the \<open>uuid4\<close> string drawn for it
  in its iteration. \<open>subtask.get('priority', 5)\<close> has a default, \<open>subtask['type']\<close>
  raises \<open>KeyError\<close>.
\<close>

fun insert_tasks ::
  "task_row list \<Rightarrow> string \<Rightarrow> string \<Rightarrow> (string \<times> subtask) list \<Rightarrow> py_error + task_row list" where
  "insert_tasks rows sid now [] = Inr rows"
| "insert_tasks rows sid now ((tid, sub) # rest) =
     (let prio = (case st_priority sub of None \<Rightarrow> 5 | Some p \<Rightarrow> p) in
      case st_type sub of
        None \<Rightarrow> Inl (KeyError ''type'')
      | Some ty \<Rightarrow>
          if \<not> sqlite_int prio then Inl (OverflowError ''priority'')
          else if tid \<in> set (map task_id rows) then Inl (IntegrityError ''tasks.task_id'')
          else insert_tasks
                 (rows @ [\<lparr> task_id = tid, parent_id = Some sid,
                            t_status = TaskStatus_value PENDING, priority = prio,
                            worker_type = ty, payload = sub, result = None,
                            t_created_at = now, completed_at = None \<rparr>])
                 sid now rest)"

text \<open>
  \<open>create_swarm_session\<close>. \<open>sid\<close> is the session's \<open>uuid4\<close> string and \<open>now\<close> the
  timestamp. Nothing is committed before the last insert, so an exception leaves the
  store as it was: the caller of the model keeps the old store on \<open>Inl\<close>.
\<close>

definition create_swarm_session ::
  "store \<Rightarrow> string \<Rightarrow> string \<Rightarrow> string \<Rightarrow> (string \<times> subtask) list \<Rightarrow> py_error + (string \<times> store)" where
  "create_swarm_session st sid now mt subtasks =
     (case insert_session (swarm_sessions st) sid mt (int (length subtasks)) now of
        Inl e \<Rightarrow> Inl e
      | Inr srows \<Rightarrow>
          (case insert_tasks (tasks st) sid now subtasks of
             Inl e \<Rightarrow> Inl e
           | Inr trows \<Rightarrow> Inr (sid, \<lparr> tasks = trows, swarm_sessions = srows \<rparr>)))"




text \<open>
  \<open>complete_task\<close>: the first \<open>UPDATE\<close> rewrites every task row with that id, the
  \<open>SELECT\<close> fetches the first of them, and \<open>if row\<close> holds for any fetched row (a
  one-element tuple). A \<open>NULL\<close> parent matches no session in the second \<open>UPDATE\<close>.
\<close>

definition complete_task :: "store \<Rightarrow> string \<Rightarrow> jval \<Rightarrow> string \<Rightarrow> store" where
  "complete_task st tid res now =
     (let trows = map (\<lambda>t. if task_id t = tid
                             then t\<lparr> t_status := TaskStatus_value COMPLETED,
                                    result := Some res, completed_at := Some now \<rparr>
                             else t) (tasks st)
      in case find (\<lambda>t. task_id t = tid) trows of
           None \<Rightarrow> st\<lparr> tasks := trows \<rparr>
         | Some row \<Rightarrow>
             (case parent_id row of
                None \<Rightarrow> st\<lparr> tasks := trows \<rparr>
              | Some p \<Rightarrow>
                  st\<lparr> tasks := trows,
                      swarm_sessions :=
                        map (\<lambda>s. if session_id s = p
                                  then s\<lparr> completed_count := completed_count s + 1 \<rparr>
                                  else s) (swarm_sessions st) \<rparr>))"

text \<open>Sequences of queue operations on one store.\<close>

datatype swarm_op =
    CreateSwarmSession string string string "(string \<times> subtask) list"
  | GetParallelSubtasks string
  | CompleteTask string jval string

fun step_op :: "store \<Rightarrow> swarm_op \<Rightarrow> store" where
  "step_op st (CreateSwarmSession sid now mt subtasks) =
     (case create_swarm_session st sid now mt subtasks of
        Inl e \<Rightarrow> st
      | Inr (r, st') \<Rightarrow> st')"
| "step_op st (GetParallelSubtasks sid) = st"
| "step_op st (CompleteTask tid res now) = complete_task st tid res now"

definition run_ops :: "store \<Rightarrow> swarm_op list \<Rightarrow> store" where
  "run_ops st ops = foldl step_op st ops"

text \<open>The session row a reader finds under an id, and a task's parent.\<close>

definition session_of :: "store \<Rightarrow> string \<Rightarrow> session_row option" where
  "session_of st sid = find (\<lambda>s. session_id s = sid) (swarm_sessions st)"

definition parent_of :: "store \<Rightarrow> string \<Rightarrow> string option option" where
  "parent_of st tid = map_option parent_id (find (\<lambda>t. task_id t = tid) (tasks st))"

text \<open>A sequence of \<open>complete_task\<close> calls, each with its result and timestamp.\<close>

definition complete_all :: "store \<Rightarrow> (string \<times> jval \<times> string) list \<Rightarrow> store" where
  "complete_all st calls = foldl (\<lambda>s (tid, res, now). complete_task s tid res now) st calls"

text \<open>
  A sequence of operations that never completes a task again: each \<open>complete_task\<close>
  is called on a task id that no row holds as completed at that moment.
\<close>

fun no_recompletion :: "store \<Rightarrow> swarm_op list \<Rightarrow> bool" where
  "no_recompletion st [] = True"
| "no_recompletion st (op # ops) =
     ((case op of
         CompleteTask tid res now \<Rightarrow>
           list_all (\<lambda>t. task_id t \<noteq> tid \<or> t_status t \<noteq> TaskStatus_value COMPLETED) (tasks st)
       | _ \<Rightarrow> True)
      \<and> no_recompletion (step_op st op) ops)"

text \<open>
  The rows a successful \<open>create_swarm_session\<close> inserts: the task row of a subtask
  (its \<open>'type'\<close> is present there) and the session row.
\<close>

definition priority_of :: "subtask \<Rightarrow> int" where
  "priority_of sub = (case st_priority sub of None \<Rightarrow> 5 | Some p \<Rightarrow> p)"

definition pending_row :: "string \<Rightarrow> string \<Rightarrow> string \<times> subtask \<Rightarrow> task_row" where
  "pending_row sid now p =
     \<lparr> task_id = fst p, parent_id = Some sid, t_status = ''pending'',
       priority = priority_of (snd p),
       worker_type = (case st_type (snd p) of None \<Rightarrow> [] | Some ty \<Rightarrow> ty),
       payload = snd p, result = None, t_created_at = now, completed_at = None \<rparr>"

definition running_row :: "string \<Rightarrow> string \<Rightarrow> string \<Rightarrow> nat \<Rightarrow> session_row" where
  "running_row sid now mt n =
     \<lparr> session_id = sid, main_task = mt, subtask_count = int n, completed_count = 0,
       s_status = ''running'', s_created_at = now \<rparr>"

text \<open>What a caller must supply for the inserts to go through.\<close>

definition insertable :: "store \<Rightarrow> string \<Rightarrow> (string \<times> subtask) list \<Rightarrow> bool" where
  "insertable st sid subtasks =
     (sid \<notin> set (map session_id (swarm_sessions st)) \<and>
      distinct (map fst subtasks) \<and>
      list_all (\<lambda>p. fst p \<notin> set (map task_id (tasks st)) \<and>
                    st_type (snd p) \<noteq> None \<and> sqlite_int (priority_of (snd p))) subtasks)"

text \<open>
  Properties of the stores the queue operations build: task ids are unique, every task
  belongs to a stored session and is pending or completed; and the tasks of a session
  that are not counted as completed are still pending.
\<close>

definition wf_store :: "store \<Rightarrow> bool" where
  "wf_store st =
     (distinct (map task_id (tasks st)) \<and>
      list_all (\<lambda>t. (case parent_id t of
                        None \<Rightarrow> False
                      | Some p \<Rightarrow> p \<in> set (map session_id (swarm_sessions st))) \<and>
                     t_status t \<in> {''pending'', ''completed''}) (tasks st))"

definition pending_count :: "store \<Rightarrow> string \<Rightarrow> nat" where
  "pending_count st sid =
     length (filter (\<lambda>t. parent_id t = Some sid \<and> t_status t = ''pending'') (tasks st))"

definition counter_inv :: "store \<Rightarrow> bool" where
  "counter_inv st =
     list_all (\<lambda>s. completed_count s + int (pending_count st (session_id s)) = subtask_count s)
       (swarm_sessions st)"

definition completed_tasks :: "store \<Rightarrow> string \<Rightarrow> nat" where
  "completed_tasks st sid =
     length (filter (\<lambda>t. parent_id t = Some sid \<and> t_status t = ''completed'') (tasks st))"

definition session_tasks :: "store \<Rightarrow> string \<Rightarrow> nat" where
  "session_tasks st sid = length (filter (\<lambda>t. parent_id t = Some sid) (tasks st))"

definition total_inv :: "store \<Rightarrow> bool" where
  "total_inv st =
     list_all (\<lambda>s. subtask_count s = int (session_tasks st (session_id s))) (swarm_sessions st)"

text \<open>Inputs for the worked examples.\<close>

definition worker_subtask :: "string \<Rightarrow> string \<Rightarrow> subtask" where
  "worker_subtask ty goal =
     \<lparr> st_type = Some ty, st_priority = None, st_goal = Some (JStr goal), st_context = None \<rparr>"


section \<open>Workflow manager (.trae/workflows/workflow\_manager\_v2.py)\<close>

text \<open>
  A step and a workflow definition are dicts loaded from YAML or JSON; these are the
  keys the manager reads, each of which may be missing. Step ids, names and actions are
  strings, \<open>'params'\<close> is a dict of JSON values and \<open>'steps'\<close> a list of steps.
\<close>

record step =
  step_id :: "string option"
  step_name :: "string option"
  step_action :: "string option"
  step_params :: "(string \<times> jval) list option"

record workflow =
  wf_name :: "string option"
  wf_steps :: "step list option"

text \<open>\<open>d.get(k, default)\<close> and \<open>d[k] = v\<close> on a dict kept as an association list.\<close>

definition dict_get :: "(string \<times> 'v) list \<Rightarrow> string \<Rightarrow> 'v \<Rightarrow> 'v" where
  "dict_get d k dflt = (case map_of d k of None \<Rightarrow> dflt | Some v \<Rightarrow> v)"


text \<open>The session dict of \<open>create_session\<close>; \<open>end_time\<close> is a key set on success only.\<close>

record wf_session =
  ws_id :: string
  workflow_name :: string
  ws_workflow :: workflow
  ws_status :: string
  start_time :: string
  steps_completed :: "string list"
  steps_failed :: "string list"
  outputs :: "(string \<times> jval) list"
  errors :: "(string \<times> string option) list"
  end_time :: "string option"

text \<open>The dict \<open>execute_step\<close> builds, and the short dict of its early return.\<close>

record step_outcome =
  r_step_id :: string
  r_action :: string
  r_success :: bool
  r_output :: jval
  r_error :: "string option"

datatype step_result =
    SessionMissing
  | StepResult step_outcome



text \<open>
  The world outside the manager has a state of type \<open>'w\<close>. What the operating system
  answers is a parameter of the model:
  \<^item> \<open>subprocess_run w cmd timeout\<close>: the process ends with a return code, its output
    and its error output, or the call raises (a timeout, a bad argument);
  \<^item> \<open>write_document w path content\<close>: \<open>os.makedirs\<close>, \<open>open\<close> and \<open>write\<close>, which
    go through (\<open>None\<close>) or raise (\<open>Some\<close> of the message);
  \<^item> \<open>path_exists w path\<close>: \<open>os.path.exists\<close>, which answers or raises on a value
    that is no path;
  \<^item> \<open>strftime_today\<close> and \<open>isoformat_now\<close>: the clock.
\<close>

datatype proc_outcome =
    ProcessExited int string string
  | ProcessRaised string

record 'w os =
  subprocess_run :: "'w \<Rightarrow> jval \<Rightarrow> jval \<Rightarrow> proc_outcome \<times> 'w"
  write_document :: "'w \<Rightarrow> jval \<Rightarrow> jval \<Rightarrow> string option \<times> 'w"
  path_exists :: "'w \<Rightarrow> jval \<Rightarrow> string + bool"
  strftime_today :: "'w \<Rightarrow> string"
  isoformat_now :: "'w \<Rightarrow> string"

text \<open>
  A hook callback is handed the session and may act on the world; it returns or raises
  an \<open>Exception\<close> with a message. Callbacks are observers: they do not modify the
  session dict or the manager they are registered with. What is no \<open>Exception\<close>
  (\<open>SystemExit\<close>, \<open>KeyboardInterrupt\<close>) ends the process and has no place here.
\<close>

datatype hook_outcome =
    Returned
  | Raised string

type_synonym 'w callback = "wf_session \<Rightarrow> 'w \<Rightarrow> hook_outcome \<times> 'w"

text \<open>Records of the logger: the level, the fixed text and the formatted argument.\<close>

datatype log_record =
    LogInfo string jval
  | LogWarning string string

text \<open>
  What the manager did, in order, as seen from outside: each callback it called (the
  event, the callback's position in the event's list, the session it was handed) and
  each step it handed to \<open>execute_step\<close>.
\<close>

datatype event =
    HookCalled string nat wf_session
  | StepExecuted step

text \<open>
  The manager: its \<open>sessions\<close> and \<open>hooks\<close> dicts, the session files in
  \<open>memory_dir\<close> (by file name), the logger's records, the world and the trace.
\<close>

record 'w manager =
  sessions :: "string \<rightharpoonup> wf_session"
  hooks :: "string \<rightharpoonup> 'w callback list"
  memory_files :: "string \<rightharpoonup> wf_session"
  logged :: "log_record list"
  world :: "'w"
  trace :: "event list"


definition msg_file_exists :: string where
  "msg_file_exists = [CHR 0xE6, CHR 0x96, CHR 0x87, CHR 0xE4, CHR 0xBB, CHR 0xB6, CHR 0xE5,
     CHR 0xAD, CHR 0x98, CHR 0xE5, CHR 0x9C, CHR 0xA8] @ '': ''"

definition msg_unknown_action :: string where
  "msg_unknown_action = [CHR 0xE6, CHR 0x9C, CHR 0xAA, CHR 0xE7, CHR 0x9F, CHR 0xA5, CHR 0xE6,
     CHR 0x93, CHR 0x8D, CHR 0xE4, CHR 0xBD, CHR 0x9C, CHR 0xE7, CHR 0xB1, CHR 0xBB, CHR 0xE5,
     CHR 0x9E, CHR 0x8B] @ '': ''"

definition msg_notify :: string where
  "msg_notify = [CHR 0xE9, CHR 0x80, CHR 0x9A, CHR 0xE7, CHR 0x9F, CHR 0xA5] @ '': ''"

text \<open>\<open>__init__\<close>: no session, the four hook events with empty lists.\<close>

definition new_manager :: "'w \<Rightarrow> 'w manager" where
  "new_manager w =
     \<lparr> sessions = Map.empty,
       hooks = [''pre_execute'' \<mapsto> [], ''post_execute'' \<mapsto> [], ''on_error'' \<mapsto> [],
                ''on_success'' \<mapsto> []],
       memory_files = Map.empty, logged = [], world = w, trace = [] \<rparr>"

definition register_hook :: "'w manager \<Rightarrow> string \<Rightarrow> 'w callback \<Rightarrow> 'w manager" where
  "register_hook m ev callback =
     (case hooks m ev of
        None \<Rightarrow> m
      | Some cbs \<Rightarrow> m\<lparr> hooks := (hooks m)(ev \<mapsto> cbs @ [callback]) \<rparr>)"


text \<open>\<open>self.hooks.get(event, [])\<close>.\<close>

definition registered :: "'w manager \<Rightarrow> string \<Rightarrow> 'w callback list" where
  "registered m ev = (case hooks m ev of None \<Rightarrow> [] | Some cbs \<Rightarrow> cbs)"


text \<open>
  The body of \<open>execute_step\<close> after the session lookup: the result dict, the world
  afterwards and what was logged. Every action sits inside \<open>try\<close>/\<open>except Exception\<close>,
  which turns an exception into \<open>error = str(e)\<close> and \<open>success = False\<close>.
\<close>

definition perform_step :: "'w os \<Rightarrow> 'w \<Rightarrow> step \<Rightarrow> step_outcome \<times> 'w \<times> log_record list" where
  "perform_step os w st =
     (let ident = (case step_id st of
                   Some i \<Rightarrow> i
                 | None \<Rightarrow> (case step_name st of Some n \<Rightarrow> n | None \<Rightarrow> ''unknown''));
          action = (case step_action st of Some a \<Rightarrow> a | None \<Rightarrow> ''unknown'');
          params = (case step_params st of Some p \<Rightarrow> p | None \<Rightarrow> []);
          res = \<lparr> r_step_id = ident, r_action = action, r_success = False,
                  r_output = JNull, r_error = None \<rparr>
      in if action = ''run_command'' then
           (case subprocess_run os w (dict_get params ''command'' (JStr []))
                                     (dict_get params ''timeout'' (JInt 60)) of
              (ProcessExited rc out err, w') \<Rightarrow>
                (res\<lparr> r_output := JStr out, r_success := (rc = 0),
                      r_error := (if rc \<noteq> 0 then Some err else None) \<rparr>, w', [])
            | (ProcessRaised e, w') \<Rightarrow>
                (res\<lparr> r_error := Some e, r_success := False \<rparr>, w', []))
         else if action = ''generate_document'' then
           (let output_path = dict_get params ''output''
                                (JStr (''output/doc-'' @ strftime_today os w @ ''.md''));
                content = dict_get params ''content'' (JStr [])
            in case write_document os w output_path content of
                 (None, w') \<Rightarrow> (res\<lparr> r_output := output_path, r_success := True \<rparr>, w', [])
               | (Some e, w') \<Rightarrow> (res\<lparr> r_error := Some e, r_success := False \<rparr>, w', []))
         else if action = ''notify'' then
           (let message = dict_get params ''message'' (JStr [])
            in (res\<lparr> r_output := message, r_success := True \<rparr>, w, [LogInfo msg_notify message]))
         else if action = ''verify'' then
           (let verify_type = dict_get params ''type'' (JStr ''file_exists'')
            in if verify_type = JStr ''file_exists'' then
                 (case path_exists os w (dict_get params ''path'' (JStr [])) of
                    Inr b \<Rightarrow>
                      (res\<lparr> r_success := b,
                            r_output := JStr (msg_file_exists @ (if b then ''True'' else ''False'')) \<rparr>,
                       w, [])
                  | Inl e \<Rightarrow> (res\<lparr> r_error := Some e, r_success := False \<rparr>, w, []))
               else (res\<lparr> r_success := True \<rparr>, w, []))
         else (res\<lparr> r_error := Some (msg_unknown_action @ action) \<rparr>, w, []))"

definition execute_step :: "'w os \<Rightarrow> 'w manager \<Rightarrow> string \<Rightarrow> step \<Rightarrow> step_result \<times> 'w manager" where
  "execute_step os m sid st =
     (case sessions m sid of
        None \<Rightarrow> (SessionMissing, m)
      | Some session \<Rightarrow>
          (case perform_step os (world m) st of
             (res, w', logs) \<Rightarrow> (StepResult res, m\<lparr> world := w', logged := logged m @ logs \<rparr>)))"

text \<open>
  The local variable \<open>session\<close> of \<open>execute_workflow\<close> is the dict stored in
  \<open>self.sessions\<close>: an assignment to it is seen through both.
\<close>

definition put_session :: "'w manager \<Rightarrow> string \<Rightarrow> wf_session \<Rightarrow> 'w manager" where
  "put_session m sid s = m\<lparr> sessions := (sessions m)(sid \<mapsto> s) \<rparr>"






text \<open>
  Notions for stating what a run does: the trace of one round of hooks, the world
  after it, the steps' bodies run one after the other from a world, and a session with
  the results of successful steps recorded.
\<close>

definition hook_calls :: "string \<Rightarrow> nat \<Rightarrow> wf_session \<Rightarrow> event list" where
  "hook_calls ev n s = map (\<lambda>i. HookCalled ev i s) [0..<n]"







text \<open>
  A small world for the worked examples: its state counts the external calls; the
  command \<open>false\<close> exits with code 1 and every other command with 0, a document is
  always written, and only \<open>/etc/hosts\<close> exists.
\<close>

definition demo_os :: "nat os" where
  "demo_os =
     \<lparr> subprocess_run = (\<lambda>w cmd timeout.
          if cmd = JStr ''false'' then (ProcessExited 1 [] ''exit 1'', Suc w)
          else (ProcessExited 0 ''ok'' [], Suc w)),
       write_document = (\<lambda>w path content. (None, Suc w)),
       path_exists = (\<lambda>w path. Inr (path = JStr ''/etc/hosts'')),
       strftime_today = (\<lambda>w. ''20240101''),
       isoformat_now = (\<lambda>w. ''2024-01-01T00:00:00'') \<rparr>"

definition demo_step :: "string \<Rightarrow> string \<Rightarrow> (string \<times> jval) list \<Rightarrow> step" where
  "demo_step ident action params =
     \<lparr> step_id = Some ident, step_name = None, step_action = Some action,
       step_params = Some params \<rparr>"

definition demo_session :: "string \<Rightarrow> step list \<Rightarrow> wf_session" where
  "demo_session sid steps =
     \<lparr> ws_id = sid, workflow_name = ''demo'',
       ws_workflow = \<lparr> wf_name = Some ''demo'', wf_steps = Some steps \<rparr>,
       ws_status = ''created'', start_time = ''2024-01-01T00:00:00'', steps_completed = [],
       steps_failed = [], outputs = [], errors = [], end_time = None \<rparr>"

text \<open>Callbacks for the examples: one that returns and one that raises.\<close>

definition counting_hook :: "nat callback" where
  "counting_hook = (\<lambda>s w. (Returned, Suc w))"

definition raising_hook :: "nat callback" where
  "raising_hook = (\<lambda>s w. (Raised (''status '' @ ws_status s), Suc w))"

definition demo_manager :: "string \<Rightarrow> step list \<Rightarrow> nat manager" where
  "demo_manager sid steps =
     put_session
       (register_hook
         (register_hook
           (register_hook
             (register_hook (new_manager 0) ''pre_execute'' raising_hook)
             ''on_error'' counting_hook)
           ''on_success'' counting_hook)
         ''post_execute'' raising_hook)
       sid (demo_session sid steps)"

text \<open>The calls of one event's callbacks in a trace.\<close>

fun is_call_of :: "string \<Rightarrow> event \<Rightarrow> bool" where
  "is_call_of ev (HookCalled ev' i s) = (ev' = ev)"
| "is_call_of ev (StepExecuted st) = False"

definition calls_of :: "string \<Rightarrow> event list \<Rightarrow> event list" where
  "calls_of ev t = filter (is_call_of ev) t"







section \<open>Scenario selector: theorems\<close>

text \<open>
  C3. For every complexity in [1,10], every task description and every value of
  \<open>has_matching_skill\<close> (\<open>None\<close> counts as false), \<open>select\<close> follows the
  fixed-priority decision procedure: complexity at most 2 gives Prompt-Enhancement;
  complexity 3 to 5 gives Skill-Reuse when a skill matches and Plan-Review when none
  does; complexity 6 or more gives Lead-Member. The boundary cases 2, 3 and 6 are the
  last four conjuncts.
\<close>

theorem select_decision_procedure:
  "1 \<le> c \<and> c \<le> 10 \<longrightarrow>
     (c \<le> 2 \<longrightarrow> select c d h = Inr info_prompt_enhancement) \<and>
     (3 \<le> c \<and> c \<le> 5 \<and> truthy h \<longrightarrow> select c d h = Inr info_skill_reuse) \<and>
     (3 \<le> c \<and> c \<le> 5 \<and> \<not> truthy h \<longrightarrow> select c d h = Inr info_plan_review) \<and>
     (6 \<le> c \<longrightarrow> select c d h = Inr info_lead_member) \<and>
     select 2 d h = Inr info_prompt_enhancement \<and>
     select 3 d (Some True) = Inr info_skill_reuse \<and>
     select 3 d (Some False) = Inr info_plan_review \<and>
     select 6 d h = Inr info_lead_member"
  by (simp add: select_def scenarios_subscript_def)

theorem select_decision_procedure_witness:
  "(1::int) \<le> 4 \<and> (4::int) \<le> 10 \<and> truthy (Some True) \<and>
   select 4 ''refactor the parser'' (Some True) = Inr info_skill_reuse \<and>
   scenario_type info_skill_reuse = SKILL_REUSE \<and>
   select 1 ''fix typo'' None = Inr info_prompt_enhancement \<and>
   select 5 ''add endpoint'' None = Inr info_plan_review \<and>
   select 10 ''rewrite everything'' (Some True) = Inr info_lead_member"
  using select_decision_procedure [of 4 "''refactor the parser''" "Some True"]
        select_decision_procedure [of 1 "''fix typo''" None]
        select_decision_procedure [of 5 "''add endpoint''" None]
        select_decision_procedure [of 10 "''rewrite everything''" "Some True"]
  by (simp add: info_skill_reuse_def)

text \<open>
  C6. For every complexity in [1,10], every task description and every value of
  \<open>has_matching_skill\<close>, \<open>select\<close> returns one of Prompt-Enhancement, Skill-Reuse,
  Plan-Review and Lead-Member and never the Composite scenario, while
  \<open>get_scenario_by_type\<close> applied to the Composite type returns the Composite
  descriptor: complexity range (6,10), confirmation required, 10 agents, 7 steps.
\<close>

theorem select_never_composite:
  "(1 \<le> c \<and> c \<le> 10 \<longrightarrow>
      select c d h \<in> {Inr info_prompt_enhancement, Inr info_skill_reuse,
                     Inr info_plan_review, Inr info_lead_member} \<and>
      (\<exists>i. select c d h = Inr i \<and> scenario_type i \<noteq> COMPOSITE) \<and>
      select c d h \<noteq> Inr info_composite) \<and>
   get_scenario_by_type COMPOSITE = Some info_composite \<and>
   scenario_type info_composite = COMPOSITE \<and>
   complexity_range info_composite = (6, 10) \<and>
   requires_confirmation info_composite = True \<and>
   max_agents info_composite = 10 \<and>
   estimated_steps info_composite = 7"
  by (simp add: select_def scenarios_subscript_def get_scenario_by_type_def
      info_prompt_enhancement_def info_skill_reuse_def info_plan_review_def
      info_lead_member_def info_composite_def)

theorem select_never_composite_witness:
  "(1::int) \<le> 8 \<and> (8::int) \<le> 10 \<and>
   select 8 ''migrate the database'' (Some False) = Inr info_lead_member \<and>
   select 8 ''migrate the database'' (Some False) \<noteq> Inr info_composite \<and>
   get_scenario_by_type COMPOSITE = Some info_composite"
  using select_never_composite [of 8 "''migrate the database''" "Some False"]
  by (simp add: select_def scenarios_subscript_def)

section \<open>Swarm queue: auxiliary facts\<close>

lemma insert_tasks_iff:
  "insert_tasks rows sid now subs = Inr rows' \<longleftrightarrow>
     distinct (map fst subs) \<and>
     list_all (\<lambda>p. fst p \<notin> set (map task_id rows) \<and> st_type (snd p) \<noteq> None \<and>
                   sqlite_int (priority_of (snd p))) subs \<and>
     rows' = rows @ map (pending_row sid now) subs"
proof (induction subs arbitrary: rows)
  case Nil
  show ?case by auto
next
  case (Cons p subs)
  obtain tid sub where p: "p = (tid, sub)" by (cases p)
  show ?case
  proof (cases "st_type sub")
    case None
    then show ?thesis by (simp add: p)
  next
    case (Some ty)
    show ?thesis
      using Cons.IH [of "rows @ [pending_row sid now (tid, sub)]"] Some
      by (auto simp: p Let_def pending_row_def priority_of_def list_all_iff)
  qed
qed

lemma create_swarm_session_iff:
  "create_swarm_session st sid now mt subs = Inr (r, st') \<longleftrightarrow>
     insertable st sid subs \<and> r = sid \<and>
     st' = \<lparr> tasks = tasks st @ map (pending_row sid now) subs,
            swarm_sessions = swarm_sessions st @ [running_row sid now mt (length subs)] \<rparr>"
  using insert_tasks_iff [of "tasks st" sid now subs "tasks st @ map (pending_row sid now) subs"]
        insert_tasks_iff [of "tasks st" sid now subs "tasks st'"]
  by (cases "insert_tasks (tasks st) sid now subs")
     (auto simp: create_swarm_session_def insert_session_def insertable_def running_row_def)

lemma find_map_same_key:
  "(\<And>x. P (f x) = P x) \<Longrightarrow> find P (map f xs) = map_option f (find P xs)"
  by (induction xs) auto

lemma complete_task_unfold:
  "complete_task st tid res now =
     st\<lparr> tasks := map (\<lambda>t. if task_id t = tid
                             then t\<lparr> t_status := ''completed'', result := Some res,
                                    completed_at := Some now \<rparr>
                             else t) (tasks st),
         swarm_sessions :=
           (case parent_of st tid of
              Some (Some p) \<Rightarrow> map (\<lambda>s. if session_id s = p
                                        then s\<lparr> completed_count := completed_count s + 1 \<rparr>
                                        else s) (swarm_sessions st)
            | _ \<Rightarrow> swarm_sessions st) \<rparr>"
proof -
  let ?f = "\<lambda>t. if task_id t = tid
                 then t\<lparr> t_status := ''completed'', result := Some res, completed_at := Some now \<rparr>
                 else t"
  have "find (\<lambda>t. task_id t = tid) (map ?f (tasks st)) =
        map_option ?f (find (\<lambda>t. task_id t = tid) (tasks st))"
    by (rule find_map_same_key) simp
  then show ?thesis
    unfolding complete_task_def Let_def parent_of_def TaskStatus_value.simps
    by (cases "find (\<lambda>t. task_id t = tid) (tasks st)") (simp_all split: option.splits)
qed

lemma complete_task_task_ids [simp]:
  "map task_id (tasks (complete_task st tid res now)) = map task_id (tasks st)"
  by (simp add: complete_task_unfold comp_def)

lemma complete_task_parents [simp]:
  "map parent_id (tasks (complete_task st tid res now)) = map parent_id (tasks st)"
  by (simp add: complete_task_unfold comp_def)

lemma complete_task_parent_of [simp]:
  "parent_of (complete_task st tid res now) x = parent_of st x"
proof -
  let ?f = "\<lambda>t. if task_id t = tid
                 then t\<lparr> t_status := ''completed'', result := Some res, completed_at := Some now \<rparr>
                 else t"
  have "find (\<lambda>t. task_id t = x) (map ?f (tasks st)) =
        map_option ?f (find (\<lambda>t. task_id t = x) (tasks st))"
    by (rule find_map_same_key) simp
  then show ?thesis
    by (cases "find (\<lambda>t. task_id t = x) (tasks st)")
       (auto simp: complete_task_unfold parent_of_def)
qed

lemma find_key_eq: "find (\<lambda>s. session_id s = sid) xs = Some s \<Longrightarrow> session_id s = sid"
  by (induction xs) (auto split: if_splits)

lemma complete_task_session_of:
  "session_of (complete_task st tid res now) sid =
     map_option (\<lambda>s. if parent_of st tid = Some (Some sid)
                      then s\<lparr> completed_count := completed_count s + 1 \<rparr> else s)
       (session_of st sid)"
proof (cases "\<exists>p. parent_of st tid = Some (Some p)")
  case False
  then have "swarm_sessions (complete_task st tid res now) = swarm_sessions st"
    by (simp add: complete_task_unfold split: option.splits)
  moreover have "parent_of st tid \<noteq> Some (Some sid)"
    using False by simp
  ultimately show ?thesis
    by (simp add: session_of_def option.map_ident)
next
  case True
  then obtain p where p: "parent_of st tid = Some (Some p)" by blast
  let ?g = "\<lambda>s. if session_id s = p then s\<lparr> completed_count := completed_count s + 1 \<rparr> else s"
  let ?h = "\<lambda>s. if p = sid then s\<lparr> completed_count := completed_count s + 1 \<rparr> else s"
  have "swarm_sessions (complete_task st tid res now) = map ?g (swarm_sessions st)"
    by (simp add: complete_task_unfold p)
  then have "session_of (complete_task st tid res now) sid =
        find (\<lambda>s. session_id s = sid) (map ?g (swarm_sessions st))"
    by (simp add: session_of_def)
  also have "\<dots> = map_option ?g (find (\<lambda>s. session_id s = sid) (swarm_sessions st))"
    by (rule find_map_same_key) simp
  also have "\<dots> = map_option ?h (find (\<lambda>s. session_id s = sid) (swarm_sessions st))"
    by (rule option.map_cong) (auto dest: find_key_eq)
  finally show ?thesis
    by (simp add: session_of_def p)
qed

lemma complete_all_Cons:
  "complete_all st ((tid, res, now) # calls) = complete_all (complete_task st tid res now) calls"
  by (simp add: complete_all_def)

lemma complete_all_parent_of [simp]:
  "parent_of (complete_all st calls) x = parent_of st x"
proof (induction calls arbitrary: st)
  case Nil
  show ?case by (simp add: complete_all_def)
next
  case (Cons c calls)
  obtain tid res now where c: "c = (tid, res, now)" by (cases c)
  show ?case by (simp only: c complete_all_Cons Cons.IH complete_task_parent_of)
qed

lemma complete_all_session_of:
  "session_of (complete_all st calls) sid =
     map_option (\<lambda>s. s\<lparr> completed_count := completed_count s +
                          int (length (filter (\<lambda>c. parent_of st (fst c) = Some (Some sid)) calls)) \<rparr>)
       (session_of st sid)"
proof (induction calls arbitrary: st)
  case Nil
  show ?case by (cases "session_of st sid") (simp_all add: complete_all_def)
next
  case (Cons c calls)
  obtain tid res now where c: "c = (tid, res, now)" by (cases c)
  show ?case
  proof (cases "session_of st sid")
    case None
    then show ?thesis
      by (simp add: c complete_all_Cons Cons.IH complete_task_session_of)
  next
    case (Some s)
    then show ?thesis
      by (simp add: c complete_all_Cons Cons.IH complete_task_session_of)
  qed
qed

lemma filter_completed_rows:
  "filter (\<lambda>t. parent_id t = Some q \<and> t_status t = ''pending'') (tasks (complete_task st tid res now)) =
   filter (\<lambda>t. task_id t \<noteq> tid \<and> parent_id t = Some q \<and> t_status t = ''pending'') (tasks st)"
proof -
  have "filter (\<lambda>t. parent_id t = Some q \<and> t_status t = ''pending'')
          (map (\<lambda>t. if task_id t = tid
                     then t\<lparr> t_status := ''completed'', result := Some res, completed_at := Some now \<rparr>
                     else t) ts) =
        filter (\<lambda>t. task_id t \<noteq> tid \<and> parent_id t = Some q \<and> t_status t = ''pending'') ts" for ts
    by (induction ts) auto
  then show ?thesis by (simp add: complete_task_unfold)
qed

lemma filter_other_ids:
  "k \<notin> set (map task_id ts) \<Longrightarrow> filter (\<lambda>x. task_id x \<noteq> k \<and> Q x) ts = filter Q ts"
  by (induction ts) auto

lemma filter_drop_one:
  "distinct (map task_id ts) \<Longrightarrow> t \<in> set ts \<Longrightarrow> Q t \<Longrightarrow>
   Suc (length (filter (\<lambda>x. task_id x \<noteq> task_id t \<and> Q x) ts)) = length (filter Q ts)"
proof (induction ts)
  case Nil
  then show ?case by simp
next
  case (Cons x ts)
  show ?case
  proof (cases "x = t")
    case True
    then have "task_id t \<notin> set (map task_id ts)" using Cons.prems(1) by simp
    then show ?thesis using True Cons.prems(3) by (simp add: filter_other_ids)
  next
    case False
    then have "t \<in> set ts" using Cons.prems(2) by simp
    moreover have "task_id x \<noteq> task_id t"
      using Cons.prems(1) \<open>t \<in> set ts\<close> by auto
    ultimately show ?thesis using Cons by simp
  qed
qed

lemma find_task_Some:
  "find (\<lambda>t. task_id t = tid) ts = Some t \<Longrightarrow> t \<in> set ts \<and> task_id t = tid"
  by (induction ts) (auto split: if_splits)

lemma find_task_None:
  "find (\<lambda>t. task_id t = tid) ts = None \<Longrightarrow> tid \<notin> set (map task_id ts)"
  by (induction ts) (auto split: if_splits)

lemma wf_store_empty: "wf_store empty_store"
  by (simp add: wf_store_def empty_store_def)

lemma counter_inv_empty: "counter_inv empty_store"
  by (simp add: counter_inv_def empty_store_def)

lemma complete_task_session_ids [simp]:
  "map session_id (swarm_sessions (complete_task st tid res now)) = map session_id (swarm_sessions st)"
proof -
  have "map session_id (map (\<lambda>s. if session_id s = p
          then s\<lparr> completed_count := completed_count s + 1 \<rparr> else s) xs) = map session_id xs" for p xs
    by (induction xs) auto
  then show ?thesis
    by (simp add: complete_task_unfold split: option.splits)
qed

lemma pending_row_sel [simp]:
  "task_id (pending_row sid now p) = fst p"
  "parent_id (pending_row sid now p) = Some sid"
  "t_status (pending_row sid now p) = ''pending''"
  "payload (pending_row sid now p) = snd p"
  by (simp_all add: pending_row_def)

lemma wf_store_complete_task:
  assumes "wf_store st"
  shows "wf_store (complete_task st tid res now)"
proof -
  have ids: "map session_id (swarm_sessions (complete_task st tid res now)) =
             map session_id (swarm_sessions st)"
    by simp
  have "distinct (map task_id (tasks (complete_task st tid res now)))"
    using assms by (simp add: wf_store_def)
  moreover have "list_all (\<lambda>t. (case parent_id t of None \<Rightarrow> False
                      | Some p \<Rightarrow> p \<in> set (map session_id (swarm_sessions st))) \<and>
                     t_status t \<in> {''pending'', ''completed''})
                  (tasks (complete_task st tid res now))"
    using assms by (auto simp: wf_store_def complete_task_unfold list_all_iff)
  ultimately show ?thesis
    unfolding wf_store_def ids by simp
qed

lemma wf_store_create:
  assumes "wf_store st" and "create_swarm_session st sid now mt subs = Inr (r, st')"
  shows "wf_store st'"
proof -
  from assms(2) have ins: "insertable st sid subs"
    and st': "st' = \<lparr> tasks = tasks st @ map (pending_row sid now) subs,
            swarm_sessions = swarm_sessions st @ [running_row sid now mt (length subs)] \<rparr>"
    by (simp_all add: create_swarm_session_iff)
  have m: "map (task_id \<circ> pending_row sid now) subs = map fst subs"
    by simp
  have d: "set (map task_id (tasks st)) \<inter> set (map fst subs) = {}"
    using ins by (fastforce simp: insertable_def list_all_iff)
  have "distinct (map task_id (tasks st) @ map fst subs)"
    using assms(1) ins d unfolding wf_store_def insertable_def
    by simp
  then have "distinct (map task_id (tasks st'))"
    unfolding st' by (simp add: m)
  moreover have "list_all (\<lambda>t. (case parent_id t of None \<Rightarrow> False
                      | Some p \<Rightarrow> p \<in> set (map session_id (swarm_sessions st'))) \<and>
                     t_status t \<in> {''pending'', ''completed''}) (tasks st')"
    using assms(1) unfolding st' wf_store_def
    by (auto simp: list_all_iff running_row_def split: option.splits)
  ultimately show ?thesis by (simp add: wf_store_def)
qed

lemma wf_store_step: "wf_store st \<Longrightarrow> wf_store (step_op st op)"
  by (cases op) (auto intro: wf_store_complete_task wf_store_create split: sum.splits)

lemma wf_store_run: "wf_store st \<Longrightarrow> wf_store (run_ops st ops)"
  unfolding run_ops_def
  by (induction ops arbitrary: st) (simp_all add: wf_store_step)

lemma pending_count_create:
  assumes "wf_store st" and "insertable st sid subs"
  shows "pending_count \<lparr> tasks = tasks st @ map (pending_row sid now) subs,
                          swarm_sessions = srows \<rparr> q =
         (if q = sid then length subs else pending_count st q)"
proof -
  have new: "filter (\<lambda>t. parent_id t = Some q \<and> t_status t = ''pending'')
               (map (pending_row sid now) subs) =
             (if q = sid then map (pending_row sid now) subs else [])"
    by (induction subs) auto
  have old: "filter (\<lambda>t. parent_id t = Some sid \<and> t_status t = ''pending'') (tasks st) = []"
    using assms by (auto simp: wf_store_def insertable_def list_all_iff filter_empty_conv
        split: option.splits)
  show ?thesis
    by (simp add: pending_count_def new old)
qed

lemma counter_inv_create:
  assumes "wf_store st" and "counter_inv st"
    and "create_swarm_session st sid now mt subs = Inr (r, st')"
  shows "counter_inv st'"
proof -
  from assms(3) have ins: "insertable st sid subs"
    and st': "st' = \<lparr> tasks = tasks st @ map (pending_row sid now) subs,
            swarm_sessions = swarm_sessions st @ [running_row sid now mt (length subs)] \<rparr>"
    by (simp_all add: create_swarm_session_iff)
  have fresh: "\<And>s. s \<in> set (swarm_sessions st) \<Longrightarrow> session_id s \<noteq> sid"
    using ins by (auto simp: insertable_def)
  show ?thesis
    using assms(2) fresh
    unfolding st' counter_inv_def
    by (simp add: pending_count_create [OF assms(1) ins] list_all_iff running_row_def)
qed

lemma counter_inv_complete_task:
  assumes wf: "wf_store st" and inv: "counter_inv st"
    and guard: "list_all (\<lambda>t. task_id t \<noteq> tid \<or> t_status t \<noteq> ''completed'') (tasks st)"
  shows "counter_inv (complete_task st tid res now)"
proof (cases "find (\<lambda>t. task_id t = tid) (tasks st)")
  case None
  then have absent: "tid \<notin> set (map task_id (tasks st))"
    by (rule find_task_None)
  have po: "parent_of st tid = None"
    by (simp add: parent_of_def None)
  have "pending_count (complete_task st tid res now) q = pending_count st q" for q
    unfolding pending_count_def filter_completed_rows
    by (simp add: filter_other_ids [OF absent])
  moreover have "swarm_sessions (complete_task st tid res now) = swarm_sessions st"
    by (simp add: complete_task_unfold po)
  ultimately show ?thesis
    using inv by (simp add: counter_inv_def)
next
  case (Some t)
  then have t: "t \<in> set (tasks st)" "task_id t = tid"
    using find_task_Some by blast+
  from wf t(1) obtain p where p: "parent_id t = Some p"
    by (auto simp: wf_store_def list_all_iff split: option.splits)
  have pend: "t_status t = ''pending''"
    using wf guard t by (auto simp: wf_store_def list_all_iff)
  have po: "parent_of st tid = Some (Some p)"
    by (simp add: parent_of_def Some p)
  have dist: "distinct (map task_id (tasks st))"
    using wf by (simp add: wf_store_def)
  have cnt_p: "Suc (pending_count (complete_task st tid res now) p) = pending_count st p"
    unfolding pending_count_def filter_completed_rows
    using filter_drop_one [OF dist t(1), of "\<lambda>t. parent_id t = Some p \<and> t_status t = ''pending''"]
    by (simp add: t(2) p pend)
  have cnt_q: "pending_count (complete_task st tid res now) q = pending_count st q" if "q \<noteq> p" for q
  proof -
    have "\<And>x. x \<in> set (tasks st) \<Longrightarrow> task_id x = tid \<Longrightarrow> x = t"
      using dist t by (auto simp: distinct_map inj_on_def)
    then have "filter (\<lambda>x. task_id x \<noteq> tid \<and> parent_id x = Some q \<and> t_status x = ''pending'') (tasks st) =
          filter (\<lambda>x. parent_id x = Some q \<and> t_status x = ''pending'') (tasks st)"
      using that p by (intro filter_cong) auto
    then show ?thesis
      by (simp add: pending_count_def filter_completed_rows)
  qed
  have rows: "swarm_sessions (complete_task st tid res now) =
        map (\<lambda>s. if session_id s = p then s\<lparr> completed_count := completed_count s + 1 \<rparr> else s)
          (swarm_sessions st)"
    by (simp add: complete_task_unfold po)
  show ?thesis
    unfolding counter_inv_def rows list_all_iff
  proof
    fix s'
    assume "s' \<in> set (map (\<lambda>s. if session_id s = p
                then s\<lparr> completed_count := completed_count s + 1 \<rparr> else s) (swarm_sessions st))"
    then obtain s where s: "s \<in> set (swarm_sessions st)"
      and s': "s' = (if session_id s = p then s\<lparr> completed_count := completed_count s + 1 \<rparr> else s)"
      by auto
    have base: "completed_count s + int (pending_count st (session_id s)) = subtask_count s"
      using inv s by (simp add: counter_inv_def list_all_iff)
    show "completed_count s' + int (pending_count (complete_task st tid res now) (session_id s')) =
          subtask_count s'"
    proof (cases "session_id s = p")
      case True
      then show ?thesis using base cnt_p by (simp add: s')
    next
      case False
      then show ?thesis using base cnt_q [of "session_id s"] by (simp add: s')
    qed
  qed
qed

lemma counter_inv_run:
  "wf_store st \<Longrightarrow> counter_inv st \<Longrightarrow> no_recompletion st ops \<Longrightarrow> counter_inv (run_ops st ops)"
proof (induction ops arbitrary: st)
  case Nil
  then show ?case by (simp add: run_ops_def)
next
  case (Cons op ops)
  have wf': "wf_store (step_op st op)"
    using Cons.prems(1) by (rule wf_store_step)
  have inv': "counter_inv (step_op st op)"
  proof (cases op)
    case (CreateSwarmSession sid now mt subs)
    then show ?thesis
      using Cons.prems(1,2) by (auto split: sum.splits intro: counter_inv_create)
  next
    case (GetParallelSubtasks sid)
    then show ?thesis using Cons.prems(2) by simp
  next
    case (CompleteTask tid res now)
    then show ?thesis
      using Cons.prems by (simp add: counter_inv_complete_task)
  qed
  have "no_recompletion (step_op st op) ops"
    using Cons.prems(3) by simp
  from Cons.IH [OF wf' inv' this] show ?case
    by (simp add: run_ops_def)
qed

lemma find_append_fresh:
  "\<forall>x\<in>set xs. \<not> P x \<Longrightarrow> find P (xs @ ys) = find P ys"
  by (induction xs) auto

lemma find_pending_row:
  "tid \<in> set (map fst subs) \<Longrightarrow>
   map_option parent_id (find (\<lambda>t. task_id t = tid) (map (pending_row sid now) subs)) = Some (Some sid)"
  by (induction subs) auto

lemma parent_of_created:
  assumes "insertable st sid subs" and "tid \<in> set (map fst subs)"
  shows "parent_of \<lparr> tasks = tasks st @ map (pending_row sid now) subs, swarm_sessions = srows \<rparr> tid =
         Some (Some sid)"
proof -
  have "\<forall>x\<in>set (tasks st). \<not> task_id x = tid"
    using assms by (fastforce simp: insertable_def list_all_iff)
  then show ?thesis
    using find_pending_row [OF assms(2)]
    by (simp add: parent_of_def find_append_fresh)
qed

lemma session_of_created:
  assumes "insertable st sid subs"
  shows "session_of \<lparr> tasks = trows, swarm_sessions = swarm_sessions st @ [running_row sid now mt n] \<rparr> sid =
         Some (running_row sid now mt n)"
proof -
  have "\<forall>x\<in>set (swarm_sessions st). \<not> session_id x = sid"
    using assms by (auto simp: insertable_def)
  then show ?thesis
    by (simp add: session_of_def find_append_fresh running_row_def)
qed

lemma status_running_run:
  "list_all (\<lambda>s. s_status s = ''running'') (swarm_sessions st) \<Longrightarrow>
   list_all (\<lambda>s. s_status s = ''running'') (swarm_sessions (run_ops st ops))"
proof (induction ops arbitrary: st)
  case Nil
  then show ?case by (simp add: run_ops_def)
next
  case (Cons op ops)
  have "list_all (\<lambda>s. s_status s = ''running'') (swarm_sessions (step_op st op))"
  proof (cases op)
    case (CreateSwarmSession sid now mt subs)
    then show ?thesis
      using Cons.prems
      by (auto simp: create_swarm_session_iff running_row_def split: sum.splits)
  next
    case (GetParallelSubtasks sid)
    then show ?thesis using Cons.prems by simp
  next
    case (CompleteTask tid res now)
    then show ?thesis
      using Cons.prems
      by (auto simp: complete_task_unfold list_all_iff split: option.splits)
  qed
  from Cons.IH [OF this] show ?case by (simp add: run_ops_def)
qed

section \<open>Swarm queue: theorems\<close>

text \<open>
  C1, as the code has it. After \<open>create_swarm_session\<close> has returned and
  \<open>complete_task\<close> has been called once for each of its subtasks, in any order, the
  session row has \<open>completed_count = subtask_count\<close>, the number of subtasks, and its
  stored status is still \<open>'running'\<close>: no queue operation writes the status column,
  so every session row of every store the operations build is \<open>'running'\<close>, and
  \<open>'completed'\<close> is only what a reader derives from the two counters.
\<close>

theorem swarm_all_completed_counter:
  assumes "create_swarm_session st sid now mt subs = Inr (r, st1)"
    and "distinct (map fst calls)"
    and "set (map fst calls) = set (map fst subs)"
  shows "r = sid \<and>
         session_of (complete_all st1 calls) sid =
           Some \<lparr> session_id = sid, main_task = mt, subtask_count = int (length subs),
                  completed_count = int (length subs), s_status = ''running'',
                  s_created_at = now \<rparr> \<and>
         list_all (\<lambda>s. s_status s = ''running'') (swarm_sessions (run_ops empty_store ops))"
proof -
  from assms(1) have ins: "insertable st sid subs" and r: "r = sid"
    and st1: "st1 = \<lparr> tasks = tasks st @ map (pending_row sid now) subs,
            swarm_sessions = swarm_sessions st @ [running_row sid now mt (length subs)] \<rparr>"
    by (simp_all add: create_swarm_session_iff)
  have "distinct (map fst subs)"
    using ins by (simp add: insertable_def)
  then have "card (set (map fst subs)) = length subs"
    using distinct_card by fastforce
  moreover have "card (set (map fst calls)) = length calls"
    using assms(2) distinct_card by fastforce
  ultimately have len: "length calls = length subs"
    using assms(3) by simp
  have "\<And>c. c \<in> set calls \<Longrightarrow> parent_of st1 (fst c) = Some (Some sid)"
    unfolding st1 using assms(3) by (intro parent_of_created [OF ins]) auto
  then have all: "filter (\<lambda>c. parent_of st1 (fst c) = Some (Some sid)) calls = calls"
    by (simp add: filter_id_conv)
  have so: "session_of st1 sid = Some (running_row sid now mt (length subs))"
    unfolding st1 by (rule session_of_created [OF ins])
  have "session_of (complete_all st1 calls) sid =
        Some ((running_row sid now mt (length subs))\<lparr> completed_count := int (length subs) \<rparr>)"
    by (simp add: complete_all_session_of all so len running_row_def)
  moreover have "list_all (\<lambda>s. s_status s = ''running'') (swarm_sessions (run_ops empty_store ops))"
    by (rule status_running_run) (simp add: empty_store_def)
  ultimately show ?thesis
    using r by (simp add: running_row_def)
qed

theorem swarm_all_completed_counter_witness:
  "create_swarm_session empty_store ''s1'' ''09:00'' ''build''
      [(''t1'', worker_subtask ''coder'' ''a''), (''t2'', worker_subtask ''tester'' ''b''),
       (''t3'', worker_subtask ''writer'' ''c'')] =
     Inr (''s1'', run_ops empty_store [CreateSwarmSession ''s1'' ''09:00'' ''build''
      [(''t1'', worker_subtask ''coder'' ''a''), (''t2'', worker_subtask ''tester'' ''b''),
       (''t3'', worker_subtask ''writer'' ''c'')]]) \<and>
   distinct (map fst [(''t3'', JNull, ''09:01''), (''t1'', JBool True, ''09:02''), (''t2'', JNull, ''09:03'')]) \<and>
   session_of (complete_all (run_ops empty_store [CreateSwarmSession ''s1'' ''09:00'' ''build''
      [(''t1'', worker_subtask ''coder'' ''a''), (''t2'', worker_subtask ''tester'' ''b''),
       (''t3'', worker_subtask ''writer'' ''c'')]])
      [(''t3'', JNull, ''09:01''), (''t1'', JBool True, ''09:02''), (''t2'', JNull, ''09:03'')]) ''s1'' =
     Some \<lparr> session_id = ''s1'', main_task = ''build'', subtask_count = 3,
            completed_count = 3, s_status = ''running'', s_created_at = ''09:00'' \<rparr>"
proof -
  let ?subs = "[(''t1'', worker_subtask ''coder'' ''a''), (''t2'', worker_subtask ''tester'' ''b''),
       (''t3'', worker_subtask ''writer'' ''c'')]"
  let ?calls = "[(''t3'', JNull, ''09:01''), (''t1'', JBool True, ''09:02''), (''t2'', JNull, ''09:03'')]"
  let ?st1 = "run_ops empty_store [CreateSwarmSession ''s1'' ''09:00'' ''build'' ?subs]"
  have c: "create_swarm_session empty_store ''s1'' ''09:00'' ''build'' ?subs = Inr (''s1'', ?st1)"
    by (simp add: run_ops_def empty_store_def create_swarm_session_def insert_session_def
      worker_subtask_def sqlite_int_def)
  have d: "distinct (map fst ?calls)" by simp
  have e: "set (map fst ?calls) = set (map fst ?subs)" by auto
  show ?thesis
    using swarm_all_completed_counter [OF c d e] c d by simp
qed

text \<open>
  Three subtasks, each completed once: the row ends with \<open>completed_count = 3\<close> and
  status \<open>'running'\<close>, not \<open>'completed'\<close>.
\<close>

theorem swarm_all_completed_status_counterexample:
  "map subtask_count (swarm_sessions (run_ops empty_store
      [CreateSwarmSession ''s1'' ''09:00'' ''build''
         [(''t1'', worker_subtask ''coder'' ''a''), (''t2'', worker_subtask ''tester'' ''b''),
          (''t3'', worker_subtask ''writer'' ''c'')],
       CompleteTask ''t1'' JNull ''09:01'', CompleteTask ''t2'' JNull ''09:02'',
       CompleteTask ''t3'' JNull ''09:03''])) = [3] \<and>
   map completed_count (swarm_sessions (run_ops empty_store
      [CreateSwarmSession ''s1'' ''09:00'' ''build''
         [(''t1'', worker_subtask ''coder'' ''a''), (''t2'', worker_subtask ''tester'' ''b''),
          (''t3'', worker_subtask ''writer'' ''c'')],
       CompleteTask ''t1'' JNull ''09:01'', CompleteTask ''t2'' JNull ''09:02'',
       CompleteTask ''t3'' JNull ''09:03''])) = [3] \<and>
   map s_status (swarm_sessions (run_ops empty_store
      [CreateSwarmSession ''s1'' ''09:00'' ''build''
         [(''t1'', worker_subtask ''coder'' ''a''), (''t2'', worker_subtask ''tester'' ''b''),
          (''t3'', worker_subtask ''writer'' ''c'')],
       CompleteTask ''t1'' JNull ''09:01'', CompleteTask ''t2'' JNull ''09:02'',
       CompleteTask ''t3'' JNull ''09:03''])) = [''running''] \<and>
   ''running'' \<noteq> ''completed''"
  by (simp add: run_ops_def empty_store_def create_swarm_session_def insert_session_def
      worker_subtask_def sqlite_int_def complete_task_def)

subsection \<open>Counting the tasks of a session\<close>

lemma session_tasks_create:
  assumes "wf_store st" and "insertable st sid subs"
  shows "session_tasks \<lparr> tasks = tasks st @ map (pending_row sid now) subs,
                          swarm_sessions = srows \<rparr> q =
         (if q = sid then length subs else session_tasks st q)"
proof -
  have new: "filter (\<lambda>t. parent_id t = Some q) (map (pending_row sid now) subs) =
             (if q = sid then map (pending_row sid now) subs else [])"
    by (induction subs) auto
  have old: "filter (\<lambda>t. parent_id t = Some sid) (tasks st) = []"
    using assms by (auto simp: wf_store_def insertable_def list_all_iff filter_empty_conv
        split: option.splits)
  show ?thesis
    by (simp add: session_tasks_def new old)
qed

lemma session_tasks_complete_task [simp]:
  "session_tasks (complete_task st tid res now) q = session_tasks st q"
proof -
  let ?f = "\<lambda>t. if task_id t = tid
                 then t\<lparr> t_status := ''completed'', result := Some res, completed_at := Some now \<rparr>
                 else t"
  have "filter ((\<lambda>t. parent_id t = Some q) \<circ> ?f) (tasks st) =
        filter (\<lambda>t. parent_id t = Some q) (tasks st)"
    by (rule filter_cong) auto
  then show ?thesis
    by (simp add: session_tasks_def complete_task_unfold filter_map)
qed

lemma complete_task_sessions_cases:
  "swarm_sessions (complete_task st tid res now) = swarm_sessions st \<or>
   (\<exists>p. swarm_sessions (complete_task st tid res now) =
      map (\<lambda>s. if session_id s = p then s\<lparr> completed_count := completed_count s + 1 \<rparr> else s)
        (swarm_sessions st))"
proof (cases "parent_of st tid")
  case None
  then show ?thesis by (simp add: complete_task_unfold)
next
  case (Some po)
  then show ?thesis
    by (cases po) (simp add: complete_task_unfold, auto simp: complete_task_unfold)
qed

lemma total_inv_create:
  assumes "wf_store st" and "total_inv st"
    and "create_swarm_session st sid now mt subs = Inr (r, st')"
  shows "total_inv st'"
proof -
  from assms(3) have ins: "insertable st sid subs"
    and st': "st' = \<lparr> tasks = tasks st @ map (pending_row sid now) subs,
            swarm_sessions = swarm_sessions st @ [running_row sid now mt (length subs)] \<rparr>"
    by (simp_all add: create_swarm_session_iff)
  have fresh: "\<And>s. s \<in> set (swarm_sessions st) \<Longrightarrow> session_id s \<noteq> sid"
    using ins by (auto simp: insertable_def)
  show ?thesis
    using assms(2) fresh
    unfolding st' total_inv_def
    by (simp add: session_tasks_create [OF assms(1) ins] list_all_iff running_row_def)
qed

lemma total_inv_complete_task:
  assumes "total_inv st"
  shows "total_inv (complete_task st tid res now)"
proof -
  have "list_all (\<lambda>s. subtask_count s = int (session_tasks st (session_id s)))
          (swarm_sessions (complete_task st tid res now))"
    using complete_task_sessions_cases [of st tid res now] assms
    by (auto simp: total_inv_def list_all_iff)
  then show ?thesis
    by (simp add: total_inv_def)
qed

lemma total_inv_run:
  "wf_store st \<Longrightarrow> total_inv st \<Longrightarrow> total_inv (run_ops st ops)"
proof (induction ops arbitrary: st)
  case Nil
  then show ?case by (simp add: run_ops_def)
next
  case (Cons op ops)
  have wf': "wf_store (step_op st op)"
    using Cons.prems(1) by (rule wf_store_step)
  have inv': "total_inv (step_op st op)"
  proof (cases op)
    case (CreateSwarmSession sid now mt subs)
    then show ?thesis
      using Cons.prems by (auto split: sum.splits intro: total_inv_create)
  next
    case (GetParallelSubtasks sid)
    then show ?thesis using Cons.prems(2) by simp
  next
    case (CompleteTask tid res now)
    then show ?thesis
      using Cons.prems by (simp add: total_inv_complete_task)
  qed
  from Cons.IH [OF wf' inv'] show ?case
    by (simp add: run_ops_def)
qed

lemma session_tasks_split:
  assumes "wf_store st"
  shows "session_tasks st q = pending_count st q + completed_tasks st q"
proof -
  have "list_all (\<lambda>t. t_status t \<in> {''pending'', ''completed''}) ts \<Longrightarrow>
        length (filter (\<lambda>t. parent_id t = Some q) ts) =
        length (filter (\<lambda>t. parent_id t = Some q \<and> t_status t = ''pending'') ts) +
        length (filter (\<lambda>t. parent_id t = Some q \<and> t_status t = ''completed'') ts)"
    for ts :: "task_row list"
    by (induction ts) auto
  moreover have "list_all (\<lambda>t. t_status t \<in> {''pending'', ''completed''}) (tasks st)"
    using assms by (simp add: wf_store_def list_all_iff)
  ultimately show ?thesis
    by (simp add: session_tasks_def pending_count_def completed_tasks_def)
qed

text \<open>
  C2, as the code has it. \<open>complete_task\<close> has no guard against a second completion:
  every call on a stored task adds one to the \<open>completed_count\<close> of the task's
  session, a repeated call included (second conjunct). In every sequence of queue
  operations from the empty store in which \<open>complete_task\<close> is never called on a task
  that is already completed, each session's \<open>completed_count\<close> is the number of its
  completed tasks, one per task, and is at most \<open>subtask_count\<close> (first conjunct).
\<close>

theorem completed_count_once_per_task:
  "(no_recompletion empty_store ops \<longrightarrow>
      list_all (\<lambda>s. completed_count s = int (completed_tasks (run_ops empty_store ops) (session_id s)) \<and>
                    completed_count s \<le> subtask_count s)
        (swarm_sessions (run_ops empty_store ops))) \<and>
   map_option completed_count (session_of (complete_task st tid res now) p) =
     map_option (\<lambda>s. completed_count s + (if parent_of st tid = Some (Some p) then 1 else 0))
       (session_of st p)"
proof -
  let ?st = "run_ops empty_store ops"
  have second: "map_option completed_count (session_of (complete_task st tid res now) p) =
     map_option (\<lambda>s. completed_count s + (if parent_of st tid = Some (Some p) then 1 else 0))
       (session_of st p)"
    by (cases "session_of st p") (simp_all add: complete_task_session_of)
  have first: "list_all (\<lambda>s. completed_count s = int (completed_tasks ?st (session_id s)) \<and>
                    completed_count s \<le> subtask_count s) (swarm_sessions ?st)"
    if guard: "no_recompletion empty_store ops"
  proof -
    have wf: "wf_store ?st"
      by (rule wf_store_run [OF wf_store_empty])
    have cnt: "counter_inv ?st"
      by (rule counter_inv_run [OF wf_store_empty counter_inv_empty guard])
    have tot: "total_inv ?st"
      by (rule total_inv_run [OF wf_store_empty]) (simp add: total_inv_def empty_store_def)
    show ?thesis
      unfolding list_all_iff
    proof
      fix s assume s: "s \<in> set (swarm_sessions ?st)"
      have a: "completed_count s + int (pending_count ?st (session_id s)) = subtask_count s"
        using cnt s by (simp add: counter_inv_def list_all_iff)
      have b: "subtask_count s = int (session_tasks ?st (session_id s))"
        using tot s by (simp add: total_inv_def list_all_iff)
      have c: "session_tasks ?st (session_id s) =
               pending_count ?st (session_id s) + completed_tasks ?st (session_id s)"
        by (rule session_tasks_split [OF wf])
      show "completed_count s = int (completed_tasks ?st (session_id s)) \<and>
            completed_count s \<le> subtask_count s"
        using a b c by simp
    qed
  qed
  show ?thesis using first second by blast
qed

theorem completed_count_once_per_task_witness:
  "no_recompletion empty_store
      [CreateSwarmSession ''s1'' ''09:00'' ''build''
         [(''t1'', worker_subtask ''coder'' ''a''), (''t2'', worker_subtask ''tester'' ''b'')],
       GetParallelSubtasks ''s1'',
       CompleteTask ''t2'' JNull ''09:01''] \<and>
   map completed_count (swarm_sessions (run_ops empty_store
      [CreateSwarmSession ''s1'' ''09:00'' ''build''
         [(''t1'', worker_subtask ''coder'' ''a''), (''t2'', worker_subtask ''tester'' ''b'')],
       GetParallelSubtasks ''s1'',
       CompleteTask ''t2'' JNull ''09:01''])) = [1] \<and>
   list_all (\<lambda>s. completed_count s = int (completed_tasks (run_ops empty_store
      [CreateSwarmSession ''s1'' ''09:00'' ''build''
         [(''t1'', worker_subtask ''coder'' ''a''), (''t2'', worker_subtask ''tester'' ''b'')],
       GetParallelSubtasks ''s1'',
       CompleteTask ''t2'' JNull ''09:01'']) (session_id s)) \<and> completed_count s \<le> subtask_count s)
     (swarm_sessions (run_ops empty_store
      [CreateSwarmSession ''s1'' ''09:00'' ''build''
         [(''t1'', worker_subtask ''coder'' ''a''), (''t2'', worker_subtask ''tester'' ''b'')],
       GetParallelSubtasks ''s1'',
       CompleteTask ''t2'' JNull ''09:01'']))"
proof -
  let ?ops = "[CreateSwarmSession ''s1'' ''09:00'' ''build''
         [(''t1'', worker_subtask ''coder'' ''a''), (''t2'', worker_subtask ''tester'' ''b'')],
       GetParallelSubtasks ''s1'',
       CompleteTask ''t2'' JNull ''09:01'']"
  have g: "no_recompletion empty_store ?ops"
    by (simp add: empty_store_def create_swarm_session_def insert_session_def
      worker_subtask_def sqlite_int_def complete_task_def)
  have v: "map completed_count (swarm_sessions (run_ops empty_store ?ops)) = [1]"
    by (simp add: run_ops_def empty_store_def create_swarm_session_def insert_session_def
      worker_subtask_def sqlite_int_def complete_task_def)
  show ?thesis
    using completed_count_once_per_task [of ?ops] g v by blast
qed

text \<open>
  One subtask completed twice: \<open>completed_count\<close> is 2 and \<open>subtask_count\<close> is 1.
\<close>

theorem completed_count_twice_counterexample:
  "map subtask_count (swarm_sessions (run_ops empty_store
      [CreateSwarmSession ''s1'' ''09:00'' ''build'' [(''t1'', worker_subtask ''coder'' ''a'')],
       CompleteTask ''t1'' JNull ''09:01'', CompleteTask ''t1'' JNull ''09:02''])) = [1] \<and>
   map completed_count (swarm_sessions (run_ops empty_store
      [CreateSwarmSession ''s1'' ''09:00'' ''build'' [(''t1'', worker_subtask ''coder'' ''a'')],
       CompleteTask ''t1'' JNull ''09:01'', CompleteTask ''t1'' JNull ''09:02''])) = [2] \<and>
   \<not> (2::int) \<le> 1"
  by (simp add: run_ops_def empty_store_def create_swarm_session_def insert_session_def
      worker_subtask_def sqlite_int_def complete_task_def)

subsection \<open>Creating a session and listing its subtasks\<close>







section \<open>Workflow manager: theorems\<close>

text \<open>
  C10. For an existing session, \<open>execute_step\<close> on a step whose action is
  \<open>'verify'\<close> and whose params have a \<open>'type'\<close> other than \<open>'file_exists'\<close> returns
  a result with \<open>success = True\<close>, \<open>output = None\<close> and \<open>error = None\<close>, whatever
  the operating system would answer, and leaves the manager and the world as they were.
  Only the type \<open>'file_exists'\<close>, which is also the default, asks \<open>os.path.exists\<close>:
  there \<open>success\<close> is its answer.
\<close>

theorem verify_other_type_succeeds:
  assumes "sessions m sid = Some s"
    and "step_action st = Some ''verify''"
    and "step_params st = Some ps"
    and "ident = (case step_id st of
                    Some i \<Rightarrow> i
                  | None \<Rightarrow> (case step_name st of Some n \<Rightarrow> n | None \<Rightarrow> ''unknown''))"
  shows "(map_of ps ''type'' = Some v \<and> v \<noteq> JStr ''file_exists'' \<longrightarrow>
            execute_step os m sid st =
               (StepResult \<lparr> r_step_id = ident, r_action = ''verify'', r_success = True,
                              r_output = JNull, r_error = None \<rparr>, m)) \<and>
         (dict_get ps ''type'' (JStr ''file_exists'') = JStr ''file_exists'' \<and>
          path_exists os (world m) (dict_get ps ''path'' (JStr [])) = Inr b \<longrightarrow>
            execute_step os m sid st =
               (StepResult \<lparr> r_step_id = ident, r_action = ''verify'', r_success = b,
                              r_output = JStr (msg_file_exists @ (if b then ''True'' else ''False'')),
                              r_error = None \<rparr>, m))"
  using assms
  by (simp add: execute_step_def perform_step_def dict_get_def Let_def)

theorem verify_other_type_succeeds_witness:
  "sessions (demo_manager ''ab12cd34'' []) ''ab12cd34'' = Some (demo_session ''ab12cd34'' []) \<and>
   execute_step demo_os (demo_manager ''ab12cd34'' []) ''ab12cd34''
     (demo_step ''check'' ''verify'' [(''type'', JStr ''lint''), (''path'', JStr ''/nonexistent'')]) =
     (StepResult \<lparr> r_step_id = ''check'', r_action = ''verify'', r_success = True,
                    r_output = JNull, r_error = None \<rparr>, demo_manager ''ab12cd34'' []) \<and>
   execute_step demo_os (demo_manager ''ab12cd34'' []) ''ab12cd34''
     (demo_step ''check'' ''verify'' [(''path'', JStr ''/nonexistent'')]) =
     (StepResult \<lparr> r_step_id = ''check'', r_action = ''verify'', r_success = False,
                    r_output = JStr (msg_file_exists @ ''False''), r_error = None \<rparr>,
      demo_manager ''ab12cd34'' [])"
proof -
  let ?m = "demo_manager ''ab12cd34'' []"
  let ?st = "demo_step ''check'' ''verify'' [(''type'', JStr ''lint''), (''path'', JStr ''/nonexistent'')]"
  let ?st2 = "demo_step ''check'' ''verify'' [(''path'', JStr ''/nonexistent'')]"
  have s: "sessions ?m ''ab12cd34'' = Some (demo_session ''ab12cd34'' [])"
    by (simp add: demo_manager_def put_session_def)
  have a: "step_action ?st = Some ''verify''"
    and p: "step_params ?st = Some [(''type'', JStr ''lint''), (''path'', JStr ''/nonexistent'')]"
    and i: "''check'' = (case step_id ?st of Some i \<Rightarrow> i
                  | None \<Rightarrow> (case step_name ?st of Some n \<Rightarrow> n | None \<Rightarrow> ''unknown''))"
    by (simp_all add: demo_step_def)
  have a2: "step_action ?st2 = Some ''verify''"
    and p2: "step_params ?st2 = Some [(''path'', JStr ''/nonexistent'')]"
    and i2: "''check'' = (case step_id ?st2 of Some i \<Rightarrow> i
                  | None \<Rightarrow> (case step_name ?st2 of Some n \<Rightarrow> n | None \<Rightarrow> ''unknown''))"
    by (simp_all add: demo_step_def)
  have e: "path_exists demo_os (world ?m) (JStr ''/nonexistent'') = Inr False"
    by (simp add: demo_os_def)
  show ?thesis
    using verify_other_type_succeeds [OF s a p i, of "JStr ''lint''" demo_os False]
      verify_other_type_succeeds [OF s a2 p2 i2, of "JStr ''lint''" demo_os False] s e
    by (simp add: dict_get_def)
qed

subsection \<open>Hooks, steps and the step loop\<close>









lemma registered_updates [simp]:
  "registered (m\<lparr> trace := t \<rparr>) ev = registered m ev"
  "registered (m\<lparr> world := w \<rparr>) ev = registered m ev"
  "registered (m\<lparr> logged := l \<rparr>) ev = registered m ev"
  "registered (m\<lparr> sessions := ss \<rparr>) ev = registered m ev"
  "registered (m\<lparr> memory_files := fs \<rparr>) ev = registered m ev"
  "registered (put_session m sid s) ev = registered m ev"
  by (simp_all add: registered_def put_session_def)



lemma calls_of_append [simp]: "calls_of ev (xs @ ys) = calls_of ev xs @ calls_of ev ys"
  by (simp add: calls_of_def)

lemma calls_of_Cons [simp]:
  "calls_of ev (e # t) = (if is_call_of ev e then e # calls_of ev t else calls_of ev t)"
  by (simp add: calls_of_def)

lemma calls_of_Nil [simp]: "calls_of ev [] = []"
  by (simp add: calls_of_def)

lemma calls_of_steps [simp]: "calls_of ev (map StepExecuted xs) = []"
  by (induction xs) simp_all

lemma calls_of_hook_calls [simp]:
  "calls_of ev (hook_calls ev' n s) = (if ev' = ev then hook_calls ev' n s else [])"
  by (induction n) (simp_all add: hook_calls_def)



subsection \<open>Runs of a workflow\<close>













subsection \<open>Callbacks that raise\<close>











end
